theory Spec2Isabelle
  imports Main
begin

section \<open>The SIL graph read by the instruction simplifier\<close>

text \<open>
  \<^verbatim>\<open>lib/SILPasses/Utils/SimplifyInstruction.cpp\<close> reads a graph of SIL instructions
  through pointers. The graph is modelled as an explicit store: a \<open>SILValue\<close> is the
  address of the node that defines it, and \<open>defs\<close> maps an address to that node. Two
  values are the same value exactly when their addresses are equal, as the pointer
  comparisons of the source decide it. Types, enum elements and basic blocks are opaque
  identities with equality only.
\<close>

type_synonym SILType = nat
type_synonym SILValue = nat
type_synonym EnumElementDecl = nat
type_synonym BlockRef = nat

text \<open>
  The intrinsic identifiers the source switches on, and one constructor for every other
  LLVM intrinsic.
\<close>

datatype IntrinsicID =
    not_intrinsic
  | expect
  | sadd_with_overflow
  | uadd_with_overflow
  | ssub_with_overflow
  | usub_with_overflow
  | smul_with_overflow
  | umul_with_overflow
  | other_intrinsic nat

text \<open>
  Modelled from the spec: the table \<^verbatim>\<open>swift/AST/Builtins.def\<close> is not part of the
  sources at hand. Its entries \<^verbatim>\<open>BUILTIN_BINARY_OPERATION_WITH_OVERFLOW\<close> are the
  "designated add/sub/mul-with-overflow primitives (signed and unsigned variants)";
  every other builtin is \<open>OtherBuiltin\<close>.
\<close>

datatype BuiltinValueKind =
    SAddOver
  | UAddOver
  | SSubOver
  | USubOver
  | SMulOver
  | UMulOver
  | OtherBuiltin nat

datatype CheckedCastKind = Downcast | OtherCheckedCast nat

text \<open>
  The instruction tags. Every tag that \<open>InstSimplifier\<close> visits or casts to has its own
  constructor with the fields the source reads; \<open>OtherInst\<close> stands for every other tag
  of the instruction set, with its tag number and its operands.
\<close>

datatype ValueKind =
    StructInst "SILValue list"
  | TupleInst "SILValue list"
  | TupleExtractInst SILValue nat
  | StructExtractInst SILValue nat
  | EnumInst EnumElementDecl "SILValue option"
  | UncheckedEnumDataInst SILValue EnumElementDecl
  | AddressToPointerInst SILValue
  | PointerToAddressInst SILValue
  | RefToRawPointerInst SILValue
  | RawPointerToRefInst SILValue
  | UnconditionalCheckedCastInst CheckedCastKind SILValue
  | UncheckedRefCastInst SILValue
  | UncheckedAddrCastInst SILValue
  | UpcastInst SILValue
  | ApplyInst SILValue "SILValue list"
  | BuiltinFunctionRefInst IntrinsicID BuiltinValueKind
  | IntegerLiteralInst int
  | SwitchEnumInst SILValue "(EnumElementDecl \<times> BlockRef) list"
  | OtherInst nat "SILValue list"

text \<open>
  An instruction knows its parent block and its declared type. An instruction without a
  result (a terminator) carries a type field too; no rule reads it.
\<close>

datatype SILInstruction =
  SILInstruction (getParent: BlockRef) (getType: SILType) (getKind: ValueKind)

text \<open>
  A value is defined by an instruction or by something else (a block argument, an
  undefined value), of which only the type is known.
\<close>

datatype ValueBase = SILArgument SILType | Inst SILInstruction

record SILBasicBlock =
  getPreds :: "BlockRef list"
  getTerminator :: SILValue

record SILFunction =
  defs :: "SILValue \<Rightarrow> ValueBase"
  blocks :: "BlockRef \<Rightarrow> SILBasicBlock"

text \<open>
  The source returns a null \<open>SILValue\<close> for "no simplification": \<open>None\<close>. Its
  assertions, its \<^verbatim>\<open>llvm_unreachable\<close> and the bounds checks of the array reads it
  makes are faults: \<open>Inl\<close>.
\<close>

datatype fault = AssertionFailure | OutOfBounds | UnreachableExecuted

type_synonym result = "fault + SILValue option"

text \<open>\<^verbatim>\<open>SILValue::getType()\<close>: the type of the node that defines the value.\<close>

definition valueType :: "SILFunction \<Rightarrow> SILValue \<Rightarrow> SILType" where
  "valueType F v = (case defs F v of SILArgument T \<Rightarrow> T | Inst I \<Rightarrow> getType I)"

text \<open>\<^verbatim>\<open>SILInstruction::getAllOperands()\<close>, for each tag.\<close>

fun getAllOperands :: "ValueKind \<Rightarrow> SILValue list" where
  "getAllOperands (StructInst ops) = ops"
| "getAllOperands (TupleInst ops) = ops"
| "getAllOperands (TupleExtractInst v n) = [v]"
| "getAllOperands (StructExtractInst v n) = [v]"
| "getAllOperands (EnumInst e payload) = (case payload of None \<Rightarrow> [] | Some p \<Rightarrow> [p])"
| "getAllOperands (UncheckedEnumDataInst v e) = [v]"
| "getAllOperands (AddressToPointerInst v) = [v]"
| "getAllOperands (PointerToAddressInst v) = [v]"
| "getAllOperands (RefToRawPointerInst v) = [v]"
| "getAllOperands (RawPointerToRefInst v) = [v]"
| "getAllOperands (UnconditionalCheckedCastInst k v) = [v]"
| "getAllOperands (UncheckedRefCastInst v) = [v]"
| "getAllOperands (UncheckedAddrCastInst v) = [v]"
| "getAllOperands (UpcastInst v) = [v]"
| "getAllOperands (ApplyInst callee args) = callee # args"
| "getAllOperands (BuiltinFunctionRefInst i b) = []"
| "getAllOperands (IntegerLiteralInst n) = []"
| "getAllOperands (SwitchEnumInst v cases) = [v]"
| "getAllOperands (OtherInst t ops) = ops"

text \<open>
  Modelled from the spec: \<^verbatim>\<open>SILBasicBlock::getSinglePredecessor()\<close> is declared in a
  header that is not at hand. The block "has exactly one predecessor block P": the
  predecessor list has exactly one entry.
\<close>

definition getSinglePredecessor :: "SILBasicBlock \<Rightarrow> BlockRef option" where
  "getSinglePredecessor BB = (case getPreds BB of [P] \<Rightarrow> Some P | _ \<Rightarrow> None)"

text \<open>
  Modelled from the spec: \<^verbatim>\<open>SwitchEnumInst::getCaseDestination\<close> is declared in a
  header that is not at hand. The terminator holds a "mapping from discriminant tag to
  target block", and the destination is "the target registered for" the tag.
\<close>

definition getCaseDestination ::
    "(EnumElementDecl \<times> BlockRef) list \<Rightarrow> EnumElementDecl \<Rightarrow> BlockRef option" where
  "getCaseDestination cases e = map_of cases e"

text \<open>
  Modelled from the spec: the matchers \<^verbatim>\<open>m_Zero()\<close> and \<^verbatim>\<open>m_One()\<close> of
  \<^verbatim>\<open>swift/SIL/PatternMatch.h\<close> are not at hand. They match "the literal zero" and
  "the literal one": an integer-literal instruction of that constant value.
\<close>

definition m_Zero :: "SILFunction \<Rightarrow> SILValue \<Rightarrow> bool" where
  "m_Zero F v =
     (case defs F v of
        Inst (SILInstruction _ _ (IntegerLiteralInst n)) \<Rightarrow> n = 0
      | _ \<Rightarrow> False)"

definition m_One :: "SILFunction \<Rightarrow> SILValue \<Rightarrow> bool" where
  "m_One F v =
     (case defs F v of
        Inst (SILInstruction _ _ (IntegerLiteralInst n)) \<Rightarrow> n = 1
      | _ \<Rightarrow> False)"

text \<open>\<^verbatim>\<open>dyn_cast<IntegerLiteralInst>(Op)\<close> is not null.\<close>

definition isIntegerLiteral :: "SILFunction \<Rightarrow> SILValue \<Rightarrow> bool" where
  "isIntegerLiteral F v =
     (case defs F v of
        Inst (SILInstruction _ _ (IntegerLiteralInst n)) \<Rightarrow> True
      | _ \<Rightarrow> False)"

text \<open>
  Modelled from the spec: \<^verbatim>\<open>getLLVMIntrinsicIDForBuiltinWithOverflow\<close> is not at
  hand. It sends each designated builtin to the intrinsic of the same operation and
  signedness.
\<close>

fun isBinaryOperationWithOverflow :: "BuiltinValueKind \<Rightarrow> bool" where
  "isBinaryOperationWithOverflow (OtherBuiltin n) = False"
| "isBinaryOperationWithOverflow _ = True"

fun getLLVMIntrinsicIDForBuiltinWithOverflow :: "BuiltinValueKind \<Rightarrow> IntrinsicID" where
  "getLLVMIntrinsicIDForBuiltinWithOverflow SAddOver = sadd_with_overflow"
| "getLLVMIntrinsicIDForBuiltinWithOverflow UAddOver = uadd_with_overflow"
| "getLLVMIntrinsicIDForBuiltinWithOverflow SSubOver = ssub_with_overflow"
| "getLLVMIntrinsicIDForBuiltinWithOverflow USubOver = usub_with_overflow"
| "getLLVMIntrinsicIDForBuiltinWithOverflow SMulOver = smul_with_overflow"
| "getLLVMIntrinsicIDForBuiltinWithOverflow UMulOver = umul_with_overflow"
| "getLLVMIntrinsicIDForBuiltinWithOverflow (OtherBuiltin n) = not_intrinsic"

section \<open>The rules of \<open>InstSimplifier\<close>\<close>

text \<open>The default of the visitor: \<^verbatim>\<open>visitSILInstruction\<close> returns the null value.\<close>

definition visitSILInstruction :: "SILInstruction \<Rightarrow> result" where
  "visitSILInstruction I = Inr None"

text \<open>
  The loop of \<^verbatim>\<open>visitStructInst\<close> over the operands \<open>i, i + 1, ...\<close>: \<open>False\<close> when
  one of its three early returns is taken, \<open>True\<close> when it runs to its end.
\<close>

fun visitStructInst_loop :: "SILFunction \<Rightarrow> SILValue \<Rightarrow> nat \<Rightarrow> SILValue list \<Rightarrow> bool" where
  "visitStructInst_loop F S i [] = True"
| "visitStructInst_loop F S i (v # vs) =
     (case defs F v of
        Inst (SILInstruction _ _ (StructExtractInst operand fieldNo)) \<Rightarrow>
          if S \<noteq> operand then False
          else if fieldNo \<noteq> i then False
          else visitStructInst_loop F S (Suc i) vs
      | _ \<Rightarrow> False)"

definition visitStructInst :: "SILFunction \<Rightarrow> SILInstruction \<Rightarrow> SILValue list \<Rightarrow> result" where
  "visitStructInst F SI ops =
     (if length ops < 1 then Inr None
      else case defs F (ops ! 0) of
        Inst (SILInstruction _ _ (StructExtractInst S _)) \<Rightarrow>
          if getType SI \<noteq> valueType F S then Inr None
          else if visitStructInst_loop F S 0 ops then Inr (Some S)
          else Inr None
      | _ \<Rightarrow> Inr None)"

fun visitTupleInst_loop :: "SILFunction \<Rightarrow> SILValue \<Rightarrow> nat \<Rightarrow> SILValue list \<Rightarrow> bool" where
  "visitTupleInst_loop F S i [] = True"
| "visitTupleInst_loop F S i (v # vs) =
     (case defs F v of
        Inst (SILInstruction _ _ (TupleExtractInst operand fieldNo)) \<Rightarrow>
          if S \<noteq> operand then False
          else if fieldNo \<noteq> i then False
          else visitTupleInst_loop F S (Suc i) vs
      | _ \<Rightarrow> False)"

definition visitTupleInst :: "SILFunction \<Rightarrow> SILInstruction \<Rightarrow> SILValue list \<Rightarrow> result" where
  "visitTupleInst F TI ops =
     (if length ops < 1 then Inr None
      else case defs F (ops ! 0) of
        Inst (SILInstruction _ _ (TupleExtractInst S _)) \<Rightarrow>
          if getType TI \<noteq> valueType F S then Inr None
          else if visitTupleInst_loop F S 0 ops then Inr (Some S)
          else Inr None
      | _ \<Rightarrow> Inr None)"

text \<open>
  \<^verbatim>\<open>simplifyBinaryWithOverflow\<close>: the assertion on the number of arguments, the test
  that one operand is a literal, then the switch on the intrinsic.
\<close>

definition simplifyBinaryWithOverflow ::
    "SILFunction \<Rightarrow> SILValue list \<Rightarrow> IntrinsicID \<Rightarrow> result" where
  "simplifyBinaryWithOverflow F Args ID =
     (case Args of
        Op1 # Op2 # _ \<Rightarrow>
          if \<not> isIntegerLiteral F Op1 \<and> \<not> isIntegerLiteral F Op2 then Inr None
          else if ID = sadd_with_overflow \<or> ID = uadd_with_overflow then
            (if m_Zero F Op1 then Inr (Some Op2)
             else if m_Zero F Op2 then Inr (Some Op1)
             else Inr None)
          else if ID = ssub_with_overflow \<or> ID = usub_with_overflow then
            (if m_Zero F Op2 then Inr (Some Op1)
             else Inr None)
          else if ID = smul_with_overflow \<or> ID = umul_with_overflow then
            (if m_Zero F Op1 then Inr (Some Op1)
             else if m_Zero F Op2 then Inr (Some Op2)
             else if m_One F Op1 then Inr (Some Op2)
             else if m_One F Op2 then Inr (Some Op1)
             else Inr None)
          else Inl UnreachableExecuted
      | _ \<Rightarrow> Inl AssertionFailure)"

text \<open>
  \<^verbatim>\<open>simplifyOverflowBuiltin\<close>: first the switch on the intrinsic of the callee, then,
  for a callee that is no intrinsic, the switch on its builtin kind.
\<close>

definition simplifyOverflowBuiltin ::
    "SILFunction \<Rightarrow> SILValue list \<Rightarrow> IntrinsicID \<Rightarrow> BuiltinValueKind \<Rightarrow> result" where
  "simplifyOverflowBuiltin F Args IntrinsicID BuiltinID =
     (case IntrinsicID of
        not_intrinsic \<Rightarrow>
          if isBinaryOperationWithOverflow BuiltinID
          then simplifyBinaryWithOverflow F Args
                 (getLLVMIntrinsicIDForBuiltinWithOverflow BuiltinID)
          else Inr None
      | sadd_with_overflow \<Rightarrow> simplifyBinaryWithOverflow F Args IntrinsicID
      | uadd_with_overflow \<Rightarrow> simplifyBinaryWithOverflow F Args IntrinsicID
      | ssub_with_overflow \<Rightarrow> simplifyBinaryWithOverflow F Args IntrinsicID
      | usub_with_overflow \<Rightarrow> simplifyBinaryWithOverflow F Args IntrinsicID
      | smul_with_overflow \<Rightarrow> simplifyBinaryWithOverflow F Args IntrinsicID
      | umul_with_overflow \<Rightarrow> simplifyBinaryWithOverflow F Args IntrinsicID
      | _ \<Rightarrow> Inr None)"

text \<open>
  \<^verbatim>\<open>visitTupleExtractInst\<close>. The read \<^verbatim>\<open>getElements()[getFieldNo()]\<close> is bounds
  checked by the array it indexes.
\<close>

definition visitTupleExtractInst ::
    "SILFunction \<Rightarrow> SILInstruction \<Rightarrow> SILValue \<Rightarrow> nat \<Rightarrow> result" where
  "visitTupleExtractInst F TEI operand fieldNo =
     (case defs F operand of
        Inst (SILInstruction _ _ (TupleInst elements)) \<Rightarrow>
          if fieldNo < length elements then Inr (Some (elements ! fieldNo))
          else Inl OutOfBounds
      | _ \<Rightarrow>
          if fieldNo = 0 then
            (case defs F operand of
               Inst (SILInstruction _ _ (ApplyInst callee args)) \<Rightarrow>
                 (case defs F callee of
                    Inst (SILInstruction _ _ (BuiltinFunctionRefInst iid bid)) \<Rightarrow>
                      simplifyOverflowBuiltin F args iid bid
                  | _ \<Rightarrow> Inr None)
             | _ \<Rightarrow> Inr None)
          else Inr None)"

text \<open>
  \<^verbatim>\<open>visitStructExtractInst\<close>. A field is identified with its index among the stored
  properties; \<^verbatim>\<open>getFieldValue\<close> finds no operand for an index that the struct
  instruction does not have.
\<close>

definition visitStructExtractInst ::
    "SILFunction \<Rightarrow> SILInstruction \<Rightarrow> SILValue \<Rightarrow> nat \<Rightarrow> result" where
  "visitStructExtractInst F SEI operand field =
     (case defs F operand of
        Inst (SILInstruction _ _ (StructInst elements)) \<Rightarrow>
          if field < length elements then Inr (Some (elements ! field))
          else Inl OutOfBounds
      | _ \<Rightarrow> Inr None)"

definition visitUncheckedEnumDataInst ::
    "SILFunction \<Rightarrow> SILInstruction \<Rightarrow> SILValue \<Rightarrow> EnumElementDecl \<Rightarrow> result" where
  "visitUncheckedEnumDataInst F UEDI operand element =
     (case defs F operand of
        Inst (SILInstruction _ _ (EnumInst EI_element EI_operand)) \<Rightarrow>
          if EI_element \<noteq> element then Inr None
          else (case EI_operand of
                  None \<Rightarrow> Inl AssertionFailure
                | Some payload \<Rightarrow> Inr (Some payload))
      | _ \<Rightarrow> Inr None)"

definition visitEnumInst ::
    "SILFunction \<Rightarrow> SILInstruction \<Rightarrow> EnumElementDecl \<Rightarrow> SILValue option \<Rightarrow> result" where
  "visitEnumInst F EI element payload =
     (if payload \<noteq> None then Inr None
      else case getSinglePredecessor (blocks F (getParent EI)) of
        None \<Rightarrow> Inr None
      | Some Pred \<Rightarrow>
          (case defs F (getTerminator (blocks F Pred)) of
             Inst (SILInstruction _ _ (SwitchEnumInst S cases)) \<Rightarrow>
               if getType EI \<noteq> valueType F S then Inr None
               else if Some (getParent EI) = getCaseDestination cases element
               then Inr (Some S)
               else Inr None
           | _ \<Rightarrow> Inr None))"

definition visitAddressToPointerInst ::
    "SILFunction \<Rightarrow> SILInstruction \<Rightarrow> SILValue \<Rightarrow> result" where
  "visitAddressToPointerInst F ATPI operand =
     (case defs F operand of
        Inst (SILInstruction _ PTAI_type (PointerToAddressInst x)) \<Rightarrow>
          if PTAI_type = valueType F operand then Inr (Some x) else Inr None
      | _ \<Rightarrow> Inr None)"

definition visitPointerToAddressInst ::
    "SILFunction \<Rightarrow> SILInstruction \<Rightarrow> SILValue \<Rightarrow> result" where
  "visitPointerToAddressInst F PTAI operand =
     (case defs F operand of
        Inst (SILInstruction _ _ (AddressToPointerInst x)) \<Rightarrow>
          if valueType F x = getType PTAI then Inr (Some x) else Inr None
      | _ \<Rightarrow> Inr None)"

definition visitRefToRawPointerInst ::
    "SILFunction \<Rightarrow> SILInstruction \<Rightarrow> SILValue \<Rightarrow> result" where
  "visitRefToRawPointerInst F RefToRaw operand =
     (case defs F operand of
        Inst (SILInstruction _ _ (RawPointerToRefInst x)) \<Rightarrow> Inr (Some x)
      | _ \<Rightarrow> Inr None)"

definition visitUnconditionalCheckedCastInst ::
    "SILFunction \<Rightarrow> SILInstruction \<Rightarrow> CheckedCastKind \<Rightarrow> SILValue \<Rightarrow> result" where
  "visitUnconditionalCheckedCastInst F UCCI castKind operand =
     (if castKind = Downcast then
        (case defs F operand of
           Inst (SILInstruction _ Upcast_type (UpcastInst x)) \<Rightarrow>
             if valueType F operand = Upcast_type \<and> getType UCCI = valueType F x
             then Inr (Some x)
             else Inr None
         | _ \<Rightarrow> Inr None)
      else Inr None)"

text \<open>
  \<^verbatim>\<open>visitUncheckedRefCastInst\<close>: three attempts in sequence, each falling through
  to the next when its cast or its type test fails.
\<close>

definition refCastOfRefCast :: "SILFunction \<Rightarrow> SILInstruction \<Rightarrow> SILValue \<Rightarrow> SILValue option" where
  "refCastOfRefCast F OPRI operand =
     (case defs F operand of
        Inst (SILInstruction _ _ (UncheckedRefCastInst x)) \<Rightarrow>
          if valueType F x = getType OPRI then Some x else None
      | _ \<Rightarrow> None)"

definition refCastOfUpcast :: "SILFunction \<Rightarrow> SILInstruction \<Rightarrow> SILValue \<Rightarrow> SILValue option" where
  "refCastOfUpcast F OPRI operand =
     (case defs F operand of
        Inst (SILInstruction _ _ (UpcastInst x)) \<Rightarrow>
          if valueType F x = getType OPRI then Some x else None
      | _ \<Rightarrow> None)"

definition visitUncheckedRefCastInst ::
    "SILFunction \<Rightarrow> SILInstruction \<Rightarrow> SILValue \<Rightarrow> result" where
  "visitUncheckedRefCastInst F OPRI operand =
     (case refCastOfRefCast F OPRI operand of
        Some x \<Rightarrow> Inr (Some x)
      | None \<Rightarrow>
          (case refCastOfUpcast F OPRI operand of
             Some x \<Rightarrow> Inr (Some x)
           | None \<Rightarrow>
               if valueType F operand = getType OPRI then Inr (Some operand)
               else Inr None))"

definition addrCastOfAddrCast :: "SILFunction \<Rightarrow> SILInstruction \<Rightarrow> SILValue \<Rightarrow> SILValue option" where
  "addrCastOfAddrCast F UACI operand =
     (case defs F operand of
        Inst (SILInstruction _ _ (UncheckedAddrCastInst x)) \<Rightarrow>
          if valueType F x = getType UACI then Some x else None
      | _ \<Rightarrow> None)"

definition visitUncheckedAddrCastInst ::
    "SILFunction \<Rightarrow> SILInstruction \<Rightarrow> SILValue \<Rightarrow> result" where
  "visitUncheckedAddrCastInst F UACI operand =
     (case addrCastOfAddrCast F UACI operand of
        Some x \<Rightarrow> Inr (Some x)
      | None \<Rightarrow>
          if valueType F operand = getType UACI then Inr (Some operand)
          else Inr None)"

definition visitUpcastInst :: "SILFunction \<Rightarrow> SILInstruction \<Rightarrow> SILValue \<Rightarrow> result" where
  "visitUpcastInst F UI operand =
     (case defs F operand of
        Inst (SILInstruction _ _ (UncheckedRefCastInst x)) \<Rightarrow>
          if valueType F x = getType UI then Inr (Some x) else Inr None
      | _ \<Rightarrow> Inr None)"

text \<open>
  \<^verbatim>\<open>visitApplyInst\<close>. The read \<^verbatim>\<open>getArgument(0)\<close> is bounds checked by the
  argument array.
\<close>

definition visitApplyInst ::
    "SILFunction \<Rightarrow> SILInstruction \<Rightarrow> SILValue \<Rightarrow> SILValue list \<Rightarrow> result" where
  "visitApplyInst F AI callee args =
     (case defs F callee of
        Inst (SILInstruction _ _ (BuiltinFunctionRefInst iid bid)) \<Rightarrow>
          if iid = expect then
            (case args of
               [] \<Rightarrow> Inl OutOfBounds
             | a0 # _ \<Rightarrow>
                 if isIntegerLiteral F a0 then Inr (Some a0) else Inr None)
          else Inr None
      | _ \<Rightarrow> Inr None)"

text \<open>
  The dispatch of \<^verbatim>\<open>SILInstructionVisitor::visit\<close> on the tag: the fourteen rules
  that \<open>InstSimplifier\<close> declares, and the default for every other tag.
\<close>

definition visit :: "SILFunction \<Rightarrow> SILInstruction \<Rightarrow> result" where
  "visit F I =
     (case getKind I of
        StructInst ops \<Rightarrow> visitStructInst F I ops
      | TupleInst ops \<Rightarrow> visitTupleInst F I ops
      | TupleExtractInst v n \<Rightarrow> visitTupleExtractInst F I v n
      | StructExtractInst v n \<Rightarrow> visitStructExtractInst F I v n
      | EnumInst e payload \<Rightarrow> visitEnumInst F I e payload
      | UncheckedEnumDataInst v e \<Rightarrow> visitUncheckedEnumDataInst F I v e
      | AddressToPointerInst v \<Rightarrow> visitAddressToPointerInst F I v
      | PointerToAddressInst v \<Rightarrow> visitPointerToAddressInst F I v
      | RefToRawPointerInst v \<Rightarrow> visitRefToRawPointerInst F I v
      | UnconditionalCheckedCastInst k v \<Rightarrow> visitUnconditionalCheckedCastInst F I k v
      | UncheckedRefCastInst v \<Rightarrow> visitUncheckedRefCastInst F I v
      | UncheckedAddrCastInst v \<Rightarrow> visitUncheckedAddrCastInst F I v
      | UpcastInst v \<Rightarrow> visitUpcastInst F I v
      | ApplyInst callee args \<Rightarrow> visitApplyInst F I callee args
      | _ \<Rightarrow> visitSILInstruction I)"

definition simplifyInstruction :: "SILFunction \<Rightarrow> SILInstruction \<Rightarrow> result" where
  "simplifyInstruction F I = visit F I"

section \<open>Vocabulary of the specification\<close>

text \<open>
  The "designated add/sub/mul-with-overflow primitives (signed and unsigned variants)":
  a callee whose intrinsic is one of the six overflow intrinsics, or that is no intrinsic
  and whose builtin kind is one of the six overflow builtins.
\<close>

definition isAddWithOverflow :: "IntrinsicID \<Rightarrow> BuiltinValueKind \<Rightarrow> bool" where
  "isAddWithOverflow iid bid \<longleftrightarrow>
     iid = sadd_with_overflow \<or> iid = uadd_with_overflow \<or>
     (iid = not_intrinsic \<and> (bid = SAddOver \<or> bid = UAddOver))"

definition isSubWithOverflow :: "IntrinsicID \<Rightarrow> BuiltinValueKind \<Rightarrow> bool" where
  "isSubWithOverflow iid bid \<longleftrightarrow>
     iid = ssub_with_overflow \<or> iid = usub_with_overflow \<or>
     (iid = not_intrinsic \<and> (bid = SSubOver \<or> bid = USubOver))"

definition isMulWithOverflow :: "IntrinsicID \<Rightarrow> BuiltinValueKind \<Rightarrow> bool" where
  "isMulWithOverflow iid bid \<longleftrightarrow>
     iid = smul_with_overflow \<or> iid = umul_with_overflow \<or>
     (iid = not_intrinsic \<and> (bid = SMulOver \<or> bid = UMulOver))"

definition isOverflowPrimitive :: "IntrinsicID \<Rightarrow> BuiltinValueKind \<Rightarrow> bool" where
  "isOverflowPrimitive iid bid \<longleftrightarrow>
     isAddWithOverflow iid bid \<or> isSubWithOverflow iid bid \<or> isMulWithOverflow iid bid"

text \<open>
  "Operand \<open>i\<close> is exactly \<open>extract(S, i)\<close>": the value \<open>v\<close> is defined by an extract
  instruction of the aggregate \<open>S\<close> at field \<open>i\<close>.
\<close>

definition isStructExtractOf :: "SILFunction \<Rightarrow> SILValue \<Rightarrow> SILValue \<Rightarrow> nat \<Rightarrow> bool" where
  "isStructExtractOf F v S i =
     (case defs F v of
        Inst I \<Rightarrow> getKind I = StructExtractInst S i
      | SILArgument _ \<Rightarrow> False)"

definition isTupleExtractOf :: "SILFunction \<Rightarrow> SILValue \<Rightarrow> SILValue \<Rightarrow> nat \<Rightarrow> bool" where
  "isTupleExtractOf F v S i =
     (case defs F v of
        Inst I \<Rightarrow> getKind I = TupleExtractInst S i
      | SILArgument _ \<Rightarrow> False)"

text \<open>The tags for which \<open>InstSimplifier\<close> declares a rule.\<close>

fun hasRule :: "ValueKind \<Rightarrow> bool" where
  "hasRule (RawPointerToRefInst v) = False"
| "hasRule (BuiltinFunctionRefInst i b) = False"
| "hasRule (IntegerLiteralInst n) = False"
| "hasRule (SwitchEnumInst v cases) = False"
| "hasRule (OtherInst t ops) = False"
| "hasRule _ = True"

text \<open>
  What the rules take for granted about their input, each read off the assertion or the
  array read that needs it: the field of a \<open>tuple_extract\<close> of a \<open>tuple\<close>, and of a
  \<open>struct_extract\<close> of a \<open>struct\<close>, is a position of the aggregate's operands; an
  \<open>unchecked_enum_data\<close> of an \<open>enum\<close> of the same element finds a payload; a call of
  \<open>expect\<close> has a first argument; a call of a designated overflow primitive that is read
  at field 0 has two arguments.
\<close>

definition meetsPreconditions :: "SILFunction \<Rightarrow> SILInstruction \<Rightarrow> bool" where
  "meetsPreconditions F I =
     (case getKind I of
        TupleExtractInst v n \<Rightarrow>
          (case defs F v of
             Inst (SILInstruction _ _ (TupleInst elements)) \<Rightarrow> n < length elements
           | Inst (SILInstruction _ _ (ApplyInst callee args)) \<Rightarrow>
               (case defs F callee of
                  Inst (SILInstruction _ _ (BuiltinFunctionRefInst iid bid)) \<Rightarrow>
                    n = 0 \<and> isOverflowPrimitive iid bid \<longrightarrow> 2 \<le> length args
                | _ \<Rightarrow> True)
           | _ \<Rightarrow> True)
      | StructExtractInst v n \<Rightarrow>
          (case defs F v of
             Inst (SILInstruction _ _ (StructInst elements)) \<Rightarrow> n < length elements
           | _ \<Rightarrow> True)
      | UncheckedEnumDataInst v e \<Rightarrow>
          (case defs F v of
             Inst (SILInstruction _ _ (EnumInst e' payload)) \<Rightarrow> e' = e \<longrightarrow> payload \<noteq> None
           | _ \<Rightarrow> True)
      | ApplyInst callee args \<Rightarrow>
          (case defs F callee of
             Inst (SILInstruction _ _ (BuiltinFunctionRefInst iid bid)) \<Rightarrow>
               iid = expect \<longrightarrow> args \<noteq> []
           | _ \<Rightarrow> True)
      | _ \<Rightarrow> True)"

definition isFault :: "result \<Rightarrow> bool" where
  "isFault r = (case r of Inl e \<Rightarrow> True | Inr v \<Rightarrow> False)"

text \<open>
  Where a replacement can come from: the operands of the instruction, the operands of
  the instructions that define its operands, and, for an \<open>enum\<close> without payload, the
  operand of the \<open>switch_enum\<close> that ends the single predecessor of its block.
\<close>

definition operandsOf :: "SILFunction \<Rightarrow> SILValue \<Rightarrow> SILValue list" where
  "operandsOf F v =
     (case defs F v of
        Inst I \<Rightarrow> getAllOperands (getKind I)
      | SILArgument _ \<Rightarrow> [])"

definition operandsOfOperands :: "SILFunction \<Rightarrow> SILInstruction \<Rightarrow> SILValue list" where
  "operandsOfOperands F I = concat (map (operandsOf F) (getAllOperands (getKind I)))"

definition predecessorScrutinee :: "SILFunction \<Rightarrow> SILInstruction \<Rightarrow> SILValue list" where
  "predecessorScrutinee F I =
     (case getKind I of
        EnumInst e None \<Rightarrow>
          (case getSinglePredecessor (blocks F (getParent I)) of
             None \<Rightarrow> []
           | Some Pred \<Rightarrow>
               (case defs F (getTerminator (blocks F Pred)) of
                  Inst (SILInstruction _ _ (SwitchEnumInst S cases)) \<Rightarrow> [S]
                | _ \<Rightarrow> []))
      | _ \<Rightarrow> [])"

definition replacementSources :: "SILFunction \<Rightarrow> SILInstruction \<Rightarrow> SILValue list" where
  "replacementSources F I =
     getAllOperands (getKind I) @ operandsOfOperands F I @ predecessorScrutinee F I"

text \<open>
  Definitions precede uses: \<open>pos\<close> gives every value its place in a linear order of
  the function. At a node, every operand comes earlier than the node itself.
\<close>

definition definedBeforeUse :: "(SILValue \<Rightarrow> nat) \<Rightarrow> SILFunction \<Rightarrow> SILValue \<Rightarrow> bool" where
  "definedBeforeUse pos F j = list_all (\<lambda>v. pos v < pos j) (operandsOf F j)"

text \<open>
  The terminator of the single predecessor of the block of the instruction at \<open>i\<close>, if
  the block has a single predecessor.
\<close>

definition predecessorTerminator :: "SILFunction \<Rightarrow> SILValue \<Rightarrow> SILValue list" where
  "predecessorTerminator F i =
     (case defs F i of
        Inst I \<Rightarrow>
          (case getSinglePredecessor (blocks F (getParent I)) of
             None \<Rightarrow> []
           | Some Pred \<Rightarrow> [getTerminator (blocks F Pred)])
      | SILArgument _ \<Rightarrow> [])"

text \<open>
  The order around the instruction at \<open>i\<close>: the instruction and the nodes that define
  its operands come after their operands, and the terminator of the single predecessor
  block comes before the instruction and after its own operands.
\<close>

definition definitionsPrecedeUses :: "(SILValue \<Rightarrow> nat) \<Rightarrow> SILFunction \<Rightarrow> SILValue \<Rightarrow> bool" where
  "definitionsPrecedeUses pos F i \<longleftrightarrow>
     definedBeforeUse pos F i \<and>
     list_all (definedBeforeUse pos F) (operandsOf F i) \<and>
     list_all (\<lambda>t. pos t < pos i \<and> definedBeforeUse pos F t) (predecessorTerminator F i)"

section \<open>Example graphs\<close>

text \<open>
  An address \<open>%1\<close> of type 10, and the pointer \<open>%2 = address_to_pointer %1\<close> of
  type 20.
\<close>

definition castGraph :: SILFunction where
  "castGraph =
     \<lparr> defs = (\<lambda>_. SILArgument 0)
          (1 := SILArgument 10,
           2 := Inst (SILInstruction 0 20 (AddressToPointerInst 1))),
       blocks = (\<lambda>_. \<lparr> getPreds = [], getTerminator = 0 \<rparr>) \<rparr>"

text \<open>
  Two integer literals \<open>%1 = m\<close> and \<open>%2 = n\<close>, the non-literal values \<open>%3\<close> and
  \<open>%9\<close>, a reference \<open>%4\<close> to a builtin, and four calls of it:
  \<open>%5 = apply %4(%1, %3)\<close>, \<open>%6 = apply %4(%3, %2)\<close>, \<open>%7 = apply %4(%1, %2)\<close>
  and \<open>%8 = apply %4(%3, %9)\<close>.
\<close>

definition arithGraph :: "IntrinsicID \<Rightarrow> BuiltinValueKind \<Rightarrow> int \<Rightarrow> int \<Rightarrow> SILFunction" where
  "arithGraph iid bid m n =
     \<lparr> defs = (\<lambda>_. SILArgument 64)
          (1 := Inst (SILInstruction 0 64 (IntegerLiteralInst m)),
           2 := Inst (SILInstruction 0 64 (IntegerLiteralInst n)),
           4 := Inst (SILInstruction 0 70 (BuiltinFunctionRefInst iid bid)),
           5 := Inst (SILInstruction 0 71 (ApplyInst 4 [1, 3])),
           6 := Inst (SILInstruction 0 71 (ApplyInst 4 [3, 2])),
           7 := Inst (SILInstruction 0 71 (ApplyInst 4 [1, 2])),
           8 := Inst (SILInstruction 0 71 (ApplyInst 4 [3, 9]))),
       blocks = (\<lambda>_. \<lparr> getPreds = [], getTerminator = 0 \<rparr>) \<rparr>"

text \<open>
  A struct \<open>%1\<close> of type 50 with its two fields extracted in \<open>%2\<close> and \<open>%3\<close>, and a
  tuple \<open>%4\<close> of type 60 with its two fields extracted in \<open>%5\<close> and \<open>%6\<close>.
\<close>

definition aggregateGraph :: SILFunction where
  "aggregateGraph =
     \<lparr> defs = (\<lambda>_. SILArgument 0)
          (1 := SILArgument 50,
           2 := Inst (SILInstruction 0 7 (StructExtractInst 1 0)),
           3 := Inst (SILInstruction 0 8 (StructExtractInst 1 1)),
           4 := SILArgument 60,
           5 := Inst (SILInstruction 0 7 (TupleExtractInst 4 0)),
           6 := Inst (SILInstruction 0 8 (TupleExtractInst 4 1))),
       blocks = (\<lambda>_. \<lparr> getPreds = [], getTerminator = 0 \<rparr>) \<rparr>"

text \<open>
  A payload \<open>%1\<close>, \<open>%2 = enum #100, %1\<close>, \<open>%3 = enum #101\<close> without payload, and the
  payload extracts \<open>%4 = unchecked_enum_data %2, #100\<close> and
  \<open>%5 = unchecked_enum_data %3, #101\<close>.
\<close>

definition enumGraph :: SILFunction where
  "enumGraph =
     \<lparr> defs = (\<lambda>_. SILArgument 0)
          (1 := SILArgument 5,
           2 := Inst (SILInstruction 0 9 (EnumInst 100 (Some 1))),
           3 := Inst (SILInstruction 0 9 (EnumInst 101 None)),
           4 := Inst (SILInstruction 0 5 (UncheckedEnumDataInst 2 100)),
           5 := Inst (SILInstruction 0 5 (UncheckedEnumDataInst 3 101))),
       blocks = (\<lambda>_. \<lparr> getPreds = [], getTerminator = 0 \<rparr>) \<rparr>"

text \<open>
  Block 1 ends in \<open>%11 = switch_enum %10, case #100: bb2, case #101: bb3\<close>; block 4
  ends in a branch \<open>%12\<close>. Block 2 has the single predecessor 1; block 3 has the
  predecessors 1 and 4. \<open>%13 = enum #100\<close> is in block 2 and \<open>%14 = enum #101\<close> in
  block 3, both of the type 77 of \<open>%10\<close>.
\<close>

definition cfgGraph :: SILFunction where
  "cfgGraph =
     \<lparr> defs = (\<lambda>_. SILArgument 0)
          (10 := SILArgument 77,
           11 := Inst (SILInstruction 1 0 (SwitchEnumInst 10 [(100, 2), (101, 3)])),
           12 := Inst (SILInstruction 4 0 (OtherInst 0 [])),
           13 := Inst (SILInstruction 2 77 (EnumInst 100 None)),
           14 := Inst (SILInstruction 3 77 (EnumInst 101 None))),
       blocks = (\<lambda>_. \<lparr> getPreds = [], getTerminator = 0 \<rparr>)
          (1 := \<lparr> getPreds = [], getTerminator = 11 \<rparr>,
           2 := \<lparr> getPreds = [1], getTerminator = 0 \<rparr>,
           3 := \<lparr> getPreds = [1, 4], getTerminator = 0 \<rparr>,
           4 := \<lparr> getPreds = [], getTerminator = 12 \<rparr>) \<rparr>"

text \<open>
  Block 5 is its own single predecessor: it ends in
  \<open>%21 = switch_enum %20, case #100: bb5\<close> and holds \<open>%20 = enum #100\<close>, the very
  value the switch reads.
\<close>

definition loopGraph :: SILFunction where
  "loopGraph =
     \<lparr> defs = (\<lambda>_. SILArgument 0)
          (20 := Inst (SILInstruction 5 77 (EnumInst 100 None)),
           21 := Inst (SILInstruction 5 0 (SwitchEnumInst 20 [(100, 5)]))),
       blocks = (\<lambda>_. \<lparr> getPreds = [], getTerminator = 0 \<rparr>)
          (5 := \<lparr> getPreds = [5], getTerminator = 21 \<rparr>) \<rparr>"

section \<open>Lemmas about the rules\<close>

subsection \<open>Literals and the overflow folds\<close>

lemma m_Zero_isIntegerLiteral: "m_Zero F v \<Longrightarrow> isIntegerLiteral F v"
  by (auto simp: m_Zero_def isIntegerLiteral_def
      split: ValueBase.splits SILInstruction.splits ValueKind.splits)

lemma m_One_isIntegerLiteral: "m_One F v \<Longrightarrow> isIntegerLiteral F v"
  by (auto simp: m_One_def isIntegerLiteral_def
      split: ValueBase.splits SILInstruction.splits ValueKind.splits)

lemma simplifyOverflowBuiltin_add:
  "isAddWithOverflow iid bid \<Longrightarrow>
   simplifyOverflowBuiltin F (a # b # rest) iid bid =
     (if m_Zero F a then Inr (Some b)
      else if m_Zero F b then Inr (Some a)
      else Inr None)"
  by (auto simp: isAddWithOverflow_def simplifyOverflowBuiltin_def
      simplifyBinaryWithOverflow_def dest: m_Zero_isIntegerLiteral)

lemma simplifyOverflowBuiltin_sub:
  "isSubWithOverflow iid bid \<Longrightarrow>
   simplifyOverflowBuiltin F (a # b # rest) iid bid =
     (if m_Zero F b then Inr (Some a) else Inr None)"
  by (auto simp: isSubWithOverflow_def simplifyOverflowBuiltin_def
      simplifyBinaryWithOverflow_def dest: m_Zero_isIntegerLiteral)

lemma simplifyOverflowBuiltin_mul:
  "isMulWithOverflow iid bid \<Longrightarrow>
   simplifyOverflowBuiltin F (a # b # rest) iid bid =
     (if m_Zero F a then Inr (Some a)
      else if m_Zero F b then Inr (Some b)
      else if m_One F a then Inr (Some b)
      else if m_One F b then Inr (Some a)
      else Inr None)"
  by (auto simp: isMulWithOverflow_def simplifyOverflowBuiltin_def
      simplifyBinaryWithOverflow_def dest: m_Zero_isIntegerLiteral m_One_isIntegerLiteral)

lemma simplify_tuple_extract_of_call:
  assumes "defs F v = Inst (SILInstruction B T (ApplyInst callee args))"
      and "defs F callee = Inst (SILInstruction B' T' (BuiltinFunctionRefInst iid bid))"
  shows "simplifyInstruction F (SILInstruction B'' T'' (TupleExtractInst v 0)) =
           simplifyOverflowBuiltin F args iid bid"
  using assms by (simp add: simplifyInstruction_def visit_def visitTupleExtractInst_def)

lemma simplify_call_of_overflow_primitive:
  assumes "defs F callee = Inst (SILInstruction B' T' (BuiltinFunctionRefInst iid bid))"
      and "isOverflowPrimitive iid bid"
  shows "simplifyInstruction F (SILInstruction B T (ApplyInst callee args)) = Inr None"
  using assms
  by (auto simp: simplifyInstruction_def visit_def visitApplyInst_def isOverflowPrimitive_def
      isAddWithOverflow_def isSubWithOverflow_def isMulWithOverflow_def)

lemma simplifyBinaryWithOverflow_operand:
  "simplifyBinaryWithOverflow F Args ID = Inr (Some V) \<Longrightarrow> V \<in> set Args"
  by (auto simp: simplifyBinaryWithOverflow_def split: list.splits if_splits)

lemma simplifyOverflowBuiltin_operand:
  "simplifyOverflowBuiltin F Args iid bid = Inr (Some V) \<Longrightarrow> V \<in> set Args"
  by (auto simp: simplifyOverflowBuiltin_def split: IntrinsicID.splits if_splits
      dest: simplifyBinaryWithOverflow_operand)

subsection \<open>The guard of \<open>address_to_pointer\<close>\<close>

text \<open>
  In the other nesting, \<open>address_to_pointer (pointer_to_address x)\<close>, the guard of the
  rule compares the type of the inner instruction with the type of the outer
  instruction's operand. Both are the type of one value, so the rule returns \<open>x\<close>
  whatever the types are.
\<close>

lemma visitAddressToPointerInst_guard:
  "defs F operand = Inst (SILInstruction B T (PointerToAddressInst x)) \<Longrightarrow>
   visitAddressToPointerInst F ATPI operand = Inr (Some x)"
  by (simp add: visitAddressToPointerInst_def valueType_def)

subsection \<open>The loops over the operands of an aggregate\<close>

lemma all_less_length_Cons:
  "(\<forall>k < length (v # vs). P k) \<longleftrightarrow> P 0 \<and> (\<forall>k < length vs. P (Suc k))"
  by (auto simp: less_Suc_eq_0_disj)

lemma visitStructInst_loop_iff:
  "visitStructInst_loop F S i vs \<longleftrightarrow>
     (\<forall>k < length vs. isStructExtractOf F (vs ! k) S (i + k))"
proof (induction vs arbitrary: i)
  case Nil
  show ?case by simp
next
  case (Cons v vs)
  have head: "(case defs F v of
                 Inst (SILInstruction _ _ (StructExtractInst operand fieldNo)) \<Rightarrow>
                   if S \<noteq> operand then False
                   else if fieldNo \<noteq> i then False
                   else visitStructInst_loop F S (Suc i) vs
               | _ \<Rightarrow> False)
              \<longleftrightarrow> isStructExtractOf F v S i \<and> visitStructInst_loop F S (Suc i) vs"
    by (auto simp: isStructExtractOf_def
        split: ValueBase.splits SILInstruction.splits ValueKind.splits)
  have "visitStructInst_loop F S i (v # vs) \<longleftrightarrow>
          isStructExtractOf F v S i \<and> visitStructInst_loop F S (Suc i) vs"
    by (simp only: visitStructInst_loop.simps head)
  also have "\<dots> \<longleftrightarrow> isStructExtractOf F v S i \<and>
          (\<forall>k < length vs. isStructExtractOf F (vs ! k) S (Suc i + k))"
    by (simp only: Cons.IH)
  also have "\<dots> \<longleftrightarrow> (\<forall>k < length (v # vs). isStructExtractOf F ((v # vs) ! k) S (i + k))"
    unfolding all_less_length_Cons by simp
  finally show ?case .
qed

lemma visitTupleInst_loop_iff:
  "visitTupleInst_loop F S i vs \<longleftrightarrow>
     (\<forall>k < length vs. isTupleExtractOf F (vs ! k) S (i + k))"
proof (induction vs arbitrary: i)
  case Nil
  show ?case by simp
next
  case (Cons v vs)
  have head: "(case defs F v of
                 Inst (SILInstruction _ _ (TupleExtractInst operand fieldNo)) \<Rightarrow>
                   if S \<noteq> operand then False
                   else if fieldNo \<noteq> i then False
                   else visitTupleInst_loop F S (Suc i) vs
               | _ \<Rightarrow> False)
              \<longleftrightarrow> isTupleExtractOf F v S i \<and> visitTupleInst_loop F S (Suc i) vs"
    by (auto simp: isTupleExtractOf_def
        split: ValueBase.splits SILInstruction.splits ValueKind.splits)
  have "visitTupleInst_loop F S i (v # vs) \<longleftrightarrow>
          isTupleExtractOf F v S i \<and> visitTupleInst_loop F S (Suc i) vs"
    by (simp only: visitTupleInst_loop.simps head)
  also have "\<dots> \<longleftrightarrow> isTupleExtractOf F v S i \<and>
          (\<forall>k < length vs. isTupleExtractOf F (vs ! k) S (Suc i + k))"
    by (simp only: Cons.IH)
  also have "\<dots> \<longleftrightarrow> (\<forall>k < length (v # vs). isTupleExtractOf F ((v # vs) ! k) S (i + k))"
    unfolding all_less_length_Cons by simp
  finally show ?case .
qed

lemma visitStructInst_Some_iff:
  "visitStructInst F SI ops = Inr (Some S) \<longleftrightarrow>
     ops \<noteq> [] \<and> getType SI = valueType F S \<and>
     (\<forall>i < length ops. isStructExtractOf F (ops ! i) S i)"
proof (cases ops)
  case Nil
  then show ?thesis by (simp add: visitStructInst_def)
next
  case (Cons v vs)
  have first: "visitStructInst_loop F S 0 ops \<Longrightarrow> isStructExtractOf F v S 0"
    unfolding visitStructInst_loop_iff using Cons by auto
  show ?thesis
  proof
    assume "visitStructInst F SI ops = Inr (Some S)"
    then show "ops \<noteq> [] \<and> getType SI = valueType F S \<and>
               (\<forall>i < length ops. isStructExtractOf F (ops ! i) S i)"
      using Cons visitStructInst_loop_iff [of F S 0 ops]
      by (auto simp: visitStructInst_def
          split: ValueBase.splits SILInstruction.splits ValueKind.splits if_splits)
  next
    assume r: "ops \<noteq> [] \<and> getType SI = valueType F S \<and>
               (\<forall>i < length ops. isStructExtractOf F (ops ! i) S i)"
    then have loop: "visitStructInst_loop F S 0 ops"
      by (simp add: visitStructInst_loop_iff)
    from first [OF loop] obtain I where "defs F v = Inst I" "getKind I = StructExtractInst S 0"
      by (auto simp: isStructExtractOf_def split: ValueBase.splits)
    then show "visitStructInst F SI ops = Inr (Some S)"
      using Cons r loop
      by (cases I) (simp add: visitStructInst_def)
  qed
qed

lemma visitStructInst_no_fault: "visitStructInst F SI ops \<noteq> Inl e"
  by (simp add: visitStructInst_def
      split: ValueBase.splits SILInstruction.splits ValueKind.splits)

lemma visitTupleInst_Some_iff:
  "visitTupleInst F TI ops = Inr (Some S) \<longleftrightarrow>
     ops \<noteq> [] \<and> getType TI = valueType F S \<and>
     (\<forall>i < length ops. isTupleExtractOf F (ops ! i) S i)"
proof (cases ops)
  case Nil
  then show ?thesis by (simp add: visitTupleInst_def)
next
  case (Cons v vs)
  have first: "visitTupleInst_loop F S 0 ops \<Longrightarrow> isTupleExtractOf F v S 0"
    unfolding visitTupleInst_loop_iff using Cons by auto
  show ?thesis
  proof
    assume "visitTupleInst F TI ops = Inr (Some S)"
    then show "ops \<noteq> [] \<and> getType TI = valueType F S \<and>
               (\<forall>i < length ops. isTupleExtractOf F (ops ! i) S i)"
      using Cons visitTupleInst_loop_iff [of F S 0 ops]
      by (auto simp: visitTupleInst_def
          split: ValueBase.splits SILInstruction.splits ValueKind.splits if_splits)
  next
    assume r: "ops \<noteq> [] \<and> getType TI = valueType F S \<and>
               (\<forall>i < length ops. isTupleExtractOf F (ops ! i) S i)"
    then have loop: "visitTupleInst_loop F S 0 ops"
      by (simp add: visitTupleInst_loop_iff)
    from first [OF loop] obtain I where "defs F v = Inst I" "getKind I = TupleExtractInst S 0"
      by (auto simp: isTupleExtractOf_def split: ValueBase.splits)
    then show "visitTupleInst F TI ops = Inr (Some S)"
      using Cons r loop
      by (cases I) (simp add: visitTupleInst_def)
  qed
qed

lemma visitTupleInst_no_fault: "visitTupleInst F TI ops \<noteq> Inl e"
  by (simp add: visitTupleInst_def
      split: ValueBase.splits SILInstruction.splits ValueKind.splits)

lemma result_cases: "(r::result) \<noteq> Inr None \<longleftrightarrow> (\<exists>e. r = Inl e) \<or> (\<exists>S. r = Inr (Some S))"
  by (cases r) auto

lemma visitStructInst_source:
  assumes "visitStructInst F SI ops = Inr (Some S)"
  shows "\<exists>v \<in> set ops. S \<in> set (operandsOf F v)"
proof -
  from assms have ops: "ops \<noteq> []" and "\<forall>i < length ops. isStructExtractOf F (ops ! i) S i"
    by (simp_all add: visitStructInst_Some_iff)
  then have "isStructExtractOf F (ops ! 0) S 0" by simp
  then have "S \<in> set (operandsOf F (ops ! 0))"
    by (auto simp: isStructExtractOf_def operandsOf_def split: ValueBase.splits)
  moreover from ops have "ops ! 0 \<in> set ops" by simp
  ultimately show ?thesis by blast
qed

lemma visitTupleInst_source:
  assumes "visitTupleInst F TI ops = Inr (Some S)"
  shows "\<exists>v \<in> set ops. S \<in> set (operandsOf F v)"
proof -
  from assms have ops: "ops \<noteq> []" and "\<forall>i < length ops. isTupleExtractOf F (ops ! i) S i"
    by (simp_all add: visitTupleInst_Some_iff)
  then have "isTupleExtractOf F (ops ! 0) S 0" by simp
  then have "S \<in> set (operandsOf F (ops ! 0))"
    by (auto simp: isTupleExtractOf_def operandsOf_def split: ValueBase.splits)
  moreover from ops have "ops ! 0 \<in> set ops" by simp
  ultimately show ?thesis by blast
qed

lemma visitTupleExtractInst_source:
  "visitTupleExtractInst F I v n = Inr (Some V) \<Longrightarrow> V \<in> set (operandsOf F v)"
  by (auto simp: visitTupleExtractInst_def operandsOf_def
      split: ValueBase.splits SILInstruction.splits ValueKind.splits if_splits
      dest: simplifyOverflowBuiltin_operand)

subsection \<open>Faults\<close>

lemma isFault_simps [simp]: "isFault (Inl e)" "\<not> isFault (Inr v)"
  by (simp_all add: isFault_def)

lemma isFault_iff: "isFault r \<longleftrightarrow> \<not> (\<exists>v. r = Inr v)"
  by (cases r) simp_all

lemma simplifyBinaryWithOverflow_fault:
  assumes "ID = sadd_with_overflow \<or> ID = uadd_with_overflow \<or> ID = ssub_with_overflow \<or>
           ID = usub_with_overflow \<or> ID = smul_with_overflow \<or> ID = umul_with_overflow"
  shows "isFault (simplifyBinaryWithOverflow F Args ID) \<longleftrightarrow> length Args < 2"
proof (cases Args)
  case Nil
  then show ?thesis by (simp add: simplifyBinaryWithOverflow_def)
next
  case (Cons a as)
  show ?thesis
  proof (cases as)
    case Nil
    with Cons show ?thesis by (simp add: simplifyBinaryWithOverflow_def)
  next
    case (Cons b rest)
    with \<open>Args = a # as\<close> assms show ?thesis
      by (auto simp: simplifyBinaryWithOverflow_def)
  qed
qed

lemma simplifyOverflowBuiltin_fault:
  "isFault (simplifyOverflowBuiltin F Args iid bid) \<longleftrightarrow>
     isOverflowPrimitive iid bid \<and> length Args < 2"
proof (cases iid)
  case not_intrinsic
  then show ?thesis
    by (cases bid)
       (simp_all add: simplifyOverflowBuiltin_def simplifyBinaryWithOverflow_fault
          isOverflowPrimitive_def isAddWithOverflow_def isSubWithOverflow_def
          isMulWithOverflow_def)
qed (simp_all add: simplifyOverflowBuiltin_def simplifyBinaryWithOverflow_fault
       isOverflowPrimitive_def isAddWithOverflow_def isSubWithOverflow_def
       isMulWithOverflow_def)

lemma visitTupleExtractInst_fault:
  "isFault (visitTupleExtractInst F I v n) \<longleftrightarrow>
     \<not> meetsPreconditions F (SILInstruction B T (TupleExtractInst v n))"
  by (simp add: visitTupleExtractInst_def meetsPreconditions_def simplifyOverflowBuiltin_fault
      split: ValueBase.splits SILInstruction.splits ValueKind.splits)
     (auto simp: not_le)

subsection \<open>Where a replacement comes from\<close>

lemma simplifyInstruction_source:
  assumes "simplifyInstruction F I = Inr (Some V)"
  shows "V \<in> set (replacementSources F I)"
proof -
  obtain B T K where I: "I = SILInstruction B T K" by (cases I)
  show ?thesis
  proof (cases K)
    case (StructInst ops)
    with assms I have "visitStructInst F I ops = Inr (Some V)"
      by (simp add: simplifyInstruction_def visit_def)
    from visitStructInst_source [OF this] show ?thesis
      using I StructInst by (auto simp: replacementSources_def operandsOfOperands_def)
  next
    case (TupleInst ops)
    with assms I have "visitTupleInst F I ops = Inr (Some V)"
      by (simp add: simplifyInstruction_def visit_def)
    from visitTupleInst_source [OF this] show ?thesis
      using I TupleInst by (auto simp: replacementSources_def operandsOfOperands_def)
  next
    case (TupleExtractInst v n)
    with assms I have "visitTupleExtractInst F I v n = Inr (Some V)"
      by (simp add: simplifyInstruction_def visit_def)
    from visitTupleExtractInst_source [OF this] show ?thesis
      using I TupleExtractInst by (simp add: replacementSources_def operandsOfOperands_def)
  next
    case (StructExtractInst v n)
    with assms I show ?thesis
      by (auto simp: simplifyInstruction_def visit_def visitStructExtractInst_def
          replacementSources_def operandsOfOperands_def operandsOf_def
          split: ValueBase.splits SILInstruction.splits ValueKind.splits if_splits)
  next
    case (EnumInst e payload)
    with assms I show ?thesis
      by (auto simp: simplifyInstruction_def visit_def visitEnumInst_def
          replacementSources_def predecessorScrutinee_def
          split: ValueBase.splits SILInstruction.splits ValueKind.splits if_splits
            option.splits)
  next
    case (UncheckedEnumDataInst v e)
    with assms I show ?thesis
      by (auto simp: simplifyInstruction_def visit_def visitUncheckedEnumDataInst_def
          replacementSources_def operandsOfOperands_def operandsOf_def
          split: ValueBase.splits SILInstruction.splits ValueKind.splits if_splits
            option.splits)
  next
    case (AddressToPointerInst v)
    with assms I show ?thesis
      by (auto simp: simplifyInstruction_def visit_def visitAddressToPointerInst_def
          replacementSources_def operandsOfOperands_def operandsOf_def
          split: ValueBase.splits SILInstruction.splits ValueKind.splits if_splits)
  next
    case (PointerToAddressInst v)
    with assms I show ?thesis
      by (auto simp: simplifyInstruction_def visit_def visitPointerToAddressInst_def
          replacementSources_def operandsOfOperands_def operandsOf_def
          split: ValueBase.splits SILInstruction.splits ValueKind.splits if_splits)
  next
    case (RefToRawPointerInst v)
    with assms I show ?thesis
      by (auto simp: simplifyInstruction_def visit_def visitRefToRawPointerInst_def
          replacementSources_def operandsOfOperands_def operandsOf_def
          split: ValueBase.splits SILInstruction.splits ValueKind.splits if_splits)
  next
    case (UnconditionalCheckedCastInst k v)
    with assms I show ?thesis
      by (auto simp: simplifyInstruction_def visit_def visitUnconditionalCheckedCastInst_def
          replacementSources_def operandsOfOperands_def operandsOf_def
          split: ValueBase.splits SILInstruction.splits ValueKind.splits if_splits)
  next
    case (UncheckedRefCastInst v)
    with assms I show ?thesis
      by (auto simp: simplifyInstruction_def visit_def visitUncheckedRefCastInst_def
          refCastOfRefCast_def refCastOfUpcast_def
          replacementSources_def operandsOfOperands_def operandsOf_def
          split: ValueBase.splits SILInstruction.splits ValueKind.splits if_splits
            option.splits)
  next
    case (UncheckedAddrCastInst v)
    with assms I show ?thesis
      by (auto simp: simplifyInstruction_def visit_def visitUncheckedAddrCastInst_def
          addrCastOfAddrCast_def
          replacementSources_def operandsOfOperands_def operandsOf_def
          split: ValueBase.splits SILInstruction.splits ValueKind.splits if_splits
            option.splits)
  next
    case (UpcastInst v)
    with assms I show ?thesis
      by (auto simp: simplifyInstruction_def visit_def visitUpcastInst_def
          replacementSources_def operandsOfOperands_def operandsOf_def
          split: ValueBase.splits SILInstruction.splits ValueKind.splits if_splits)
  next
    case (ApplyInst callee args)
    with assms I show ?thesis
      by (auto simp: simplifyInstruction_def visit_def visitApplyInst_def
          replacementSources_def
          split: ValueBase.splits SILInstruction.splits ValueKind.splits if_splits
            list.splits)
  qed (use assms I in \<open>simp_all add: simplifyInstruction_def visit_def visitSILInstruction_def\<close>)
qed

lemma replacementSources_earlier:
  assumes src: "V \<in> set (replacementSources F I)"
      and at_i: "defs F i = Inst I"
      and ord: "definitionsPrecedeUses pos F i"
  shows "pos V < pos i"
proof -
  have ops: "operandsOf F i = getAllOperands (getKind I)"
    using at_i by (simp add: operandsOf_def)
  from ord have own: "\<forall>v \<in> set (getAllOperands (getKind I)). pos v < pos i"
    and below: "\<forall>v \<in> set (getAllOperands (getKind I)). \<forall>w \<in> set (operandsOf F v). pos w < pos v"
    and before: "\<forall>t \<in> set (predecessorTerminator F i).
                 pos t < pos i \<and> (\<forall>w \<in> set (operandsOf F t). pos w < pos t)"
    by (simp_all add: definitionsPrecedeUses_def definedBeforeUse_def ops list_all_iff)
  from src consider
      (operand) "V \<in> set (getAllOperands (getKind I))"
    | (nested) "V \<in> set (operandsOfOperands F I)"
    | (scrutinee) "V \<in> set (predecessorScrutinee F I)"
    by (auto simp: replacementSources_def)
  then show ?thesis
  proof cases
    case operand
    with own show ?thesis by blast
  next
    case nested
    then obtain v where v: "v \<in> set (getAllOperands (getKind I))" "V \<in> set (operandsOf F v)"
      by (auto simp: operandsOfOperands_def)
    with below have "pos V < pos v" by blast
    moreover from v own have "pos v < pos i" by blast
    ultimately show ?thesis by simp
  next
    case scrutinee
    then obtain e where kind: "getKind I = EnumInst e None"
      by (cases "getKind I") (auto simp: predecessorScrutinee_def split: option.splits)
    with scrutinee obtain Pred
      where pred: "getSinglePredecessor (blocks F (getParent I)) = Some Pred"
      by (cases "getSinglePredecessor (blocks F (getParent I))")
         (auto simp: predecessorScrutinee_def)
    define t where "t = getTerminator (blocks F Pred)"
    from scrutinee kind pred
    have scr: "V \<in> set (case defs F t of
                 Inst (SILInstruction _ _ (SwitchEnumInst S cases)) \<Rightarrow> [S]
               | _ \<Rightarrow> [])"
      by (simp add: predecessorScrutinee_def t_def)
    have "V \<in> set (operandsOf F t)"
    proof (cases "defs F t")
      case (SILArgument T)
      with scr show ?thesis by simp
    next
      case (Inst J)
      obtain B1 T1 K1 where J: "J = SILInstruction B1 T1 K1" by (cases J)
      from scr Inst J show ?thesis by (cases K1) (simp_all add: operandsOf_def)
    qed
    moreover have "t \<in> set (predecessorTerminator F i)"
      using at_i pred by (simp add: predecessorTerminator_def t_def)
    ultimately have t: "t \<in> set (predecessorTerminator F i)" "V \<in> set (operandsOf F t)"
      by simp_all
    with before have "pos V < pos t" "pos t < pos i" by blast+
    then show ?thesis by simp
  qed
qed

section \<open>The claims\<close>

subsection \<open>C1: cancellation of address and pointer casts\<close>

text \<open>
  C1: the cast that makes an address from a pointer, \<open>pointer_to_address\<close>, applied to
  the pointer made from an address \<open>x\<close>, \<open>address_to_pointer x\<close>, simplifies to \<open>x\<close>
  when the declared type \<open>D\<close> of the outer instruction equals the type of \<open>x\<close>, and
  to nothing for every input where these types differ. So \<open>x\<close> is returned only when
  the types are equal.
\<close>

theorem C1_address_of_pointer_of_address:
  assumes "defs F operand = Inst (SILInstruction B P (AddressToPointerInst x))"
  shows "(valueType F x = D \<longrightarrow>
            simplifyInstruction F (SILInstruction B' D (PointerToAddressInst operand))
              = Inr (Some x))
       \<and> (valueType F x \<noteq> D \<longrightarrow>
            simplifyInstruction F (SILInstruction B' D (PointerToAddressInst operand))
              = Inr None)"
  using assms
  by (simp add: simplifyInstruction_def visit_def visitPointerToAddressInst_def)

theorem C1_address_of_pointer_of_address_witness:
  "valueType castGraph 1 = 10
   \<and> simplifyInstruction castGraph (SILInstruction 0 10 (PointerToAddressInst 2))
        = Inr (Some 1)
   \<and> simplifyInstruction castGraph (SILInstruction 0 30 (PointerToAddressInst 2))
        = Inr None"
  using
    C1_address_of_pointer_of_address [of castGraph 2 0 20 1 10 0]
    C1_address_of_pointer_of_address [of castGraph 2 0 20 1 30 0]
  by (simp add: castGraph_def valueType_def)

subsection \<open>C2: identity folds of arithmetic with overflow\<close>

text \<open>
  C2 as it is stated applies the simplifier to the call instruction. The rule of the
  call, \<^verbatim>\<open>visitApplyInst\<close>, folds the value hint only: the call
  \<open>apply sadd_with_overflow(0, %3)\<close> is left as it is.
\<close>

theorem C2_call_itself_is_not_folded:
  "m_Zero (arithGraph sadd_with_overflow (OtherBuiltin 0) 0 1) 1 \<and>
   isAddWithOverflow sadd_with_overflow (OtherBuiltin 0) \<and>
   simplifyInstruction (arithGraph sadd_with_overflow (OtherBuiltin 0) 0 1)
     (SILInstruction 0 71 (ApplyInst 4 [1, 3])) = Inr None"
  by (simp add: arithGraph_def m_Zero_def isAddWithOverflow_def simplifyInstruction_def
      visit_def visitApplyInst_def)

text \<open>
  C2, amended: the identity folds are the result of the simplifier on the extract of
  field 0 of the call's result. For a call of a designated primitive with exactly two
  arguments \<open>a\<close> and \<open>b\<close>: addition returns \<open>b\<close> when \<open>a\<close> is the literal zero, and
  \<open>a\<close> when only \<open>b\<close> is; subtraction returns \<open>a\<close> when \<open>b\<close> is the literal zero;
  multiplication returns the literal zero operand when there is one (the first one
  first), and otherwise the other operand of a literal one (the first one first).
\<close>

theorem C2_identity_folds_at_tuple_extract:
  assumes call: "defs F v = Inst (SILInstruction B T (ApplyInst callee [a, b]))"
      and callee: "defs F callee = Inst (SILInstruction B' T' (BuiltinFunctionRefInst iid bid))"
  shows "(isAddWithOverflow iid bid \<and> m_Zero F a \<longrightarrow>
            simplifyInstruction F (SILInstruction B'' T'' (TupleExtractInst v 0)) = Inr (Some b))
       \<and> (isAddWithOverflow iid bid \<and> \<not> m_Zero F a \<and> m_Zero F b \<longrightarrow>
            simplifyInstruction F (SILInstruction B'' T'' (TupleExtractInst v 0)) = Inr (Some a))
       \<and> (isSubWithOverflow iid bid \<and> m_Zero F b \<longrightarrow>
            simplifyInstruction F (SILInstruction B'' T'' (TupleExtractInst v 0)) = Inr (Some a))
       \<and> (isMulWithOverflow iid bid \<and> m_Zero F a \<longrightarrow>
            simplifyInstruction F (SILInstruction B'' T'' (TupleExtractInst v 0)) = Inr (Some a))
       \<and> (isMulWithOverflow iid bid \<and> \<not> m_Zero F a \<and> m_Zero F b \<longrightarrow>
            simplifyInstruction F (SILInstruction B'' T'' (TupleExtractInst v 0)) = Inr (Some b))
       \<and> (isMulWithOverflow iid bid \<and> \<not> m_Zero F a \<and> \<not> m_Zero F b \<and> m_One F a \<longrightarrow>
            simplifyInstruction F (SILInstruction B'' T'' (TupleExtractInst v 0)) = Inr (Some b))
       \<and> (isMulWithOverflow iid bid \<and> \<not> m_Zero F a \<and> \<not> m_Zero F b \<and> \<not> m_One F a \<and> m_One F b \<longrightarrow>
            simplifyInstruction F (SILInstruction B'' T'' (TupleExtractInst v 0)) = Inr (Some a))"
  by (simp add: simplify_tuple_extract_of_call [OF call callee]
      simplifyOverflowBuiltin_add simplifyOverflowBuiltin_sub simplifyOverflowBuiltin_mul)

theorem C2_identity_folds_at_tuple_extract_witness:
  "simplifyInstruction (arithGraph sadd_with_overflow (OtherBuiltin 0) 0 1)
     (SILInstruction 0 64 (TupleExtractInst 5 0)) = Inr (Some 3)
   \<and> simplifyInstruction (arithGraph not_intrinsic USubOver 1 0)
     (SILInstruction 0 64 (TupleExtractInst 6 0)) = Inr (Some 3)
   \<and> simplifyInstruction (arithGraph umul_with_overflow (OtherBuiltin 0) 0 1)
     (SILInstruction 0 64 (TupleExtractInst 6 0)) = Inr (Some 3)
   \<and> simplifyInstruction (arithGraph not_intrinsic SMulOver 1 0)
     (SILInstruction 0 64 (TupleExtractInst 6 0)) = Inr (Some 2)"
  using
    C2_identity_folds_at_tuple_extract
      [of "arithGraph sadd_with_overflow (OtherBuiltin 0) 0 1" 5 0 71 4 1 3 0 70
          sadd_with_overflow "OtherBuiltin 0" 0 64]
    C2_identity_folds_at_tuple_extract
      [of "arithGraph not_intrinsic USubOver 1 0" 6 0 71 4 3 2 0 70
          not_intrinsic USubOver 0 64]
    C2_identity_folds_at_tuple_extract
      [of "arithGraph umul_with_overflow (OtherBuiltin 0) 0 1" 6 0 71 4 3 2 0 70
          umul_with_overflow "OtherBuiltin 0" 0 64]
    C2_identity_folds_at_tuple_extract
      [of "arithGraph not_intrinsic SMulOver 1 0" 6 0 71 4 3 2 0 70
          not_intrinsic SMulOver 0 64]
  by (simp add: arithGraph_def m_Zero_def m_One_def isAddWithOverflow_def
      isSubWithOverflow_def isMulWithOverflow_def)

subsection \<open>C3: an aggregate rebuilt from its own fields\<close>

text \<open>
  C3: a \<open>struct\<close> (a \<open>tuple\<close>) instruction simplifies to \<open>S\<close> exactly when it has at
  least one operand, its declared type is the type of \<open>S\<close>, and every operand \<open>i\<close> is
  the \<open>struct_extract\<close> (the \<open>tuple_extract\<close>) of \<open>S\<close> at field \<open>i\<close>. When there is
  no such \<open>S\<close> it simplifies to nothing, and so does every aggregate without operands.
\<close>

theorem C3_construct_of_extracts:
  "(simplifyInstruction F (SILInstruction B T (StructInst ops)) = Inr (Some S) \<longleftrightarrow>
      ops \<noteq> [] \<and> T = valueType F S \<and>
      (\<forall>i < length ops. isStructExtractOf F (ops ! i) S i))
   \<and> (simplifyInstruction F (SILInstruction B T (StructInst ops)) = Inr None \<longleftrightarrow>
      \<not> (\<exists>S'. ops \<noteq> [] \<and> T = valueType F S' \<and>
            (\<forall>i < length ops. isStructExtractOf F (ops ! i) S' i)))
   \<and> (simplifyInstruction F (SILInstruction B T (TupleInst ops)) = Inr (Some S) \<longleftrightarrow>
      ops \<noteq> [] \<and> T = valueType F S \<and>
      (\<forall>i < length ops. isTupleExtractOf F (ops ! i) S i))
   \<and> (simplifyInstruction F (SILInstruction B T (TupleInst ops)) = Inr None \<longleftrightarrow>
      \<not> (\<exists>S'. ops \<noteq> [] \<and> T = valueType F S' \<and>
            (\<forall>i < length ops. isTupleExtractOf F (ops ! i) S' i)))
   \<and> simplifyInstruction F (SILInstruction B T (StructInst [])) = Inr None
   \<and> simplifyInstruction F (SILInstruction B T (TupleInst [])) = Inr None"
proof -
  let ?SI = "SILInstruction B T (StructInst ops)"
  let ?TI = "SILInstruction B T (TupleInst ops)"
  have s: "simplifyInstruction F ?SI = visitStructInst F ?SI ops"
    by (simp add: simplifyInstruction_def visit_def)
  have t: "simplifyInstruction F ?TI = visitTupleInst F ?TI ops"
    by (simp add: simplifyInstruction_def visit_def)
  have s_some: "\<And>S'. visitStructInst F ?SI ops = Inr (Some S') \<longleftrightarrow>
      ops \<noteq> [] \<and> T = valueType F S' \<and> (\<forall>i < length ops. isStructExtractOf F (ops ! i) S' i)"
    using visitStructInst_Some_iff [of F ?SI ops] by simp
  have t_some: "\<And>S'. visitTupleInst F ?TI ops = Inr (Some S') \<longleftrightarrow>
      ops \<noteq> [] \<and> T = valueType F S' \<and> (\<forall>i < length ops. isTupleExtractOf F (ops ! i) S' i)"
    using visitTupleInst_Some_iff [of F ?TI ops] by simp
  have s_none: "visitStructInst F ?SI ops = Inr None \<longleftrightarrow>
      \<not> (\<exists>S'. visitStructInst F ?SI ops = Inr (Some S'))"
    using result_cases [of "visitStructInst F ?SI ops"] visitStructInst_no_fault [of F ?SI ops]
    by auto
  have t_none: "visitTupleInst F ?TI ops = Inr None \<longleftrightarrow>
      \<not> (\<exists>S'. visitTupleInst F ?TI ops = Inr (Some S'))"
    using result_cases [of "visitTupleInst F ?TI ops"] visitTupleInst_no_fault [of F ?TI ops]
    by auto
  have e1: "simplifyInstruction F (SILInstruction B T (StructInst [])) = Inr None"
    by (simp add: simplifyInstruction_def visit_def visitStructInst_def)
  have e2: "simplifyInstruction F (SILInstruction B T (TupleInst [])) = Inr None"
    by (simp add: simplifyInstruction_def visit_def visitTupleInst_def)
  show ?thesis
    unfolding s t using s_some t_some s_none t_none e1 e2 by (simp only: simp_thms)
qed

theorem C3_construct_of_extracts_witness:
  "simplifyInstruction aggregateGraph (SILInstruction 0 50 (StructInst [2, 3])) = Inr (Some 1)
   \<and> simplifyInstruction aggregateGraph (SILInstruction 0 50 (StructInst [3, 2])) = Inr None
   \<and> simplifyInstruction aggregateGraph (SILInstruction 0 60 (TupleInst [5, 6])) = Inr (Some 4)
   \<and> simplifyInstruction aggregateGraph (SILInstruction 0 60 (TupleInst [6, 5])) = Inr None"
  using
    C3_construct_of_extracts [of aggregateGraph 0 50 "[2, 3]" 1]
    C3_construct_of_extracts [of aggregateGraph 0 50 "[3, 2]" 1]
    C3_construct_of_extracts [of aggregateGraph 0 60 "[5, 6]" 4]
    C3_construct_of_extracts [of aggregateGraph 0 60 "[6, 5]" 4]
  by (simp add: aggregateGraph_def isStructExtractOf_def isTupleExtractOf_def valueType_def
      less_Suc_eq_0_disj all_conj_distrib)

subsection \<open>C4: the payload of a constructed enum\<close>

text \<open>
  C4: an \<open>unchecked_enum_data\<close> for the element \<open>tag'\<close> whose operand is an \<open>enum\<close>
  instruction of element \<open>tag\<close> with a payload simplifies to that payload when
  \<open>tag = tag'\<close>, and to nothing when the elements differ.
\<close>

theorem C4_payload_extract_of_construct:
  assumes "defs F operand = Inst (SILInstruction B T (EnumInst tag (Some payload)))"
  shows "(tag = tag' \<longrightarrow>
            simplifyInstruction F (SILInstruction B' T' (UncheckedEnumDataInst operand tag'))
              = Inr (Some payload))
       \<and> (tag \<noteq> tag' \<longrightarrow>
            simplifyInstruction F (SILInstruction B' T' (UncheckedEnumDataInst operand tag'))
              = Inr None)"
  using assms
  by (simp add: simplifyInstruction_def visit_def visitUncheckedEnumDataInst_def)

theorem C4_payload_extract_of_construct_witness:
  "simplifyInstruction enumGraph (SILInstruction 0 5 (UncheckedEnumDataInst 2 100)) = Inr (Some 1)
   \<and> simplifyInstruction enumGraph (SILInstruction 0 5 (UncheckedEnumDataInst 2 101)) = Inr None"
  using
    C4_payload_extract_of_construct [of enumGraph 2 0 9 100 1 100 0 5]
    C4_payload_extract_of_construct [of enumGraph 2 0 9 100 1 101 0 5]
  by (simp add: enumGraph_def)

subsection \<open>C5: an enum rebuilt after the switch that decided it\<close>

text \<open>
  C5: an \<open>enum\<close> instruction without payload in block \<open>B\<close> simplifies to \<open>S\<close> when
  \<open>B\<close> has exactly one predecessor \<open>P\<close>, \<open>P\<close> ends in a \<open>switch_enum\<close> of \<open>S\<close>, \<open>B\<close>
  is the destination registered for the instruction's element, and the instruction's
  declared type is the type of \<open>S\<close>. When \<open>B\<close> has two or more predecessors it
  simplifies to nothing, whatever the edges are.
\<close>

theorem C5_single_predecessor_enum_fold:
  "(getPreds (blocks F B) = [P] \<and>
    defs F (getTerminator (blocks F P)) = Inst (SILInstruction PB PT (SwitchEnumInst S cases)) \<and>
    getCaseDestination cases tag = Some B \<and>
    T = valueType F S \<longrightarrow>
      simplifyInstruction F (SILInstruction B T (EnumInst tag None)) = Inr (Some S))
   \<and> (2 \<le> length (getPreds (blocks F B)) \<longrightarrow>
      simplifyInstruction F (SILInstruction B T (EnumInst tag None)) = Inr None)"
proof (intro conjI impI)
  assume "getPreds (blocks F B) = [P] \<and>
    defs F (getTerminator (blocks F P)) = Inst (SILInstruction PB PT (SwitchEnumInst S cases)) \<and>
    getCaseDestination cases tag = Some B \<and> T = valueType F S"
  then show "simplifyInstruction F (SILInstruction B T (EnumInst tag None)) = Inr (Some S)"
    by (simp add: simplifyInstruction_def visit_def visitEnumInst_def getSinglePredecessor_def)
next
  assume "2 \<le> length (getPreds (blocks F B))"
  then have "getSinglePredecessor (blocks F B) = None"
    by (auto simp: getSinglePredecessor_def split: list.splits)
  then show "simplifyInstruction F (SILInstruction B T (EnumInst tag None)) = Inr None"
    by (simp add: simplifyInstruction_def visit_def visitEnumInst_def)
qed

theorem C5_single_predecessor_enum_fold_witness:
  "simplifyInstruction cfgGraph (SILInstruction 2 77 (EnumInst 100 None)) = Inr (Some 10)
   \<and> simplifyInstruction cfgGraph (SILInstruction 3 77 (EnumInst 101 None)) = Inr None"
  using
    C5_single_predecessor_enum_fold [of cfgGraph 2 1 1 0 10 "[(100, 2), (101, 3)]" 100 77]
    C5_single_predecessor_enum_fold [of cfgGraph 3 1 1 0 10 "[(100, 2), (101, 3)]" 101 77]
  by (simp add: cfgGraph_def getCaseDestination_def valueType_def)

subsection \<open>C6: multiplication by a literal zero returns that operand\<close>

text \<open>
  C6: when an operand of a multiplication with overflow is the literal zero, the fold
  returns that very operand: the first operand if it is the literal zero, otherwise the
  second. No value is constructed.
\<close>

theorem C6_mul_by_zero_returns_the_literal_operand:
  assumes call: "defs F v = Inst (SILInstruction B T (ApplyInst callee (a # b # rest)))"
      and callee: "defs F callee = Inst (SILInstruction B' T' (BuiltinFunctionRefInst iid bid))"
      and mul: "isMulWithOverflow iid bid"
      and zero: "m_Zero F a \<or> m_Zero F b"
  shows "simplifyInstruction F (SILInstruction B'' T'' (TupleExtractInst v 0)) =
           Inr (Some (if m_Zero F a then a else b))"
  using mul zero
  by (auto simp: simplify_tuple_extract_of_call [OF call callee] simplifyOverflowBuiltin_mul)

theorem C6_mul_by_zero_returns_the_literal_operand_witness:
  "simplifyInstruction (arithGraph smul_with_overflow (OtherBuiltin 0) 0 0)
     (SILInstruction 0 64 (TupleExtractInst 5 0)) = Inr (Some 1)
   \<and> simplifyInstruction (arithGraph smul_with_overflow (OtherBuiltin 0) 0 0)
     (SILInstruction 0 64 (TupleExtractInst 6 0)) = Inr (Some 2)
   \<and> simplifyInstruction (arithGraph smul_with_overflow (OtherBuiltin 0) 0 0)
     (SILInstruction 0 64 (TupleExtractInst 7 0)) = Inr (Some 1)"
  using
    C6_mul_by_zero_returns_the_literal_operand
      [of "arithGraph smul_with_overflow (OtherBuiltin 0) 0 0" 5 0 71 4 1 3 "[]" 0 70
          smul_with_overflow "OtherBuiltin 0" 0 64]
    C6_mul_by_zero_returns_the_literal_operand
      [of "arithGraph smul_with_overflow (OtherBuiltin 0) 0 0" 6 0 71 4 3 2 "[]" 0 70
          smul_with_overflow "OtherBuiltin 0" 0 64]
    C6_mul_by_zero_returns_the_literal_operand
      [of "arithGraph smul_with_overflow (OtherBuiltin 0) 0 0" 7 0 71 4 1 2 "[]" 0 70
          smul_with_overflow "OtherBuiltin 0" 0 64]
  by (simp add: arithGraph_def m_Zero_def isMulWithOverflow_def)

subsection \<open>C7: no fold without an identity pattern\<close>

text \<open>
  C7: the fold of a designated primitive returns nothing when no identity pattern
  matches: when neither operand is a literal, when an addition has no literal zero
  operand, when the second operand of a subtraction is not the literal zero (whatever
  the first is), and when a multiplication has neither a literal zero nor a literal one
  operand. Whatever is returned is one of the two operands, never a computed constant.
\<close>

theorem C7_no_identity_pattern_no_fold:
  assumes call: "defs F v = Inst (SILInstruction B T (ApplyInst callee (a # b # rest)))"
      and callee: "defs F callee = Inst (SILInstruction B' T' (BuiltinFunctionRefInst iid bid))"
  shows "(isOverflowPrimitive iid bid \<and> \<not> isIntegerLiteral F a \<and> \<not> isIntegerLiteral F b \<longrightarrow>
            simplifyInstruction F (SILInstruction B'' T'' (TupleExtractInst v 0)) = Inr None)
       \<and> (isAddWithOverflow iid bid \<and> \<not> m_Zero F a \<and> \<not> m_Zero F b \<longrightarrow>
            simplifyInstruction F (SILInstruction B'' T'' (TupleExtractInst v 0)) = Inr None)
       \<and> (isSubWithOverflow iid bid \<and> \<not> m_Zero F b \<longrightarrow>
            simplifyInstruction F (SILInstruction B'' T'' (TupleExtractInst v 0)) = Inr None)
       \<and> (isMulWithOverflow iid bid \<and> \<not> m_Zero F a \<and> \<not> m_Zero F b
            \<and> \<not> m_One F a \<and> \<not> m_One F b \<longrightarrow>
            simplifyInstruction F (SILInstruction B'' T'' (TupleExtractInst v 0)) = Inr None)
       \<and> (isOverflowPrimitive iid bid \<longrightarrow>
            simplifyInstruction F (SILInstruction B'' T'' (TupleExtractInst v 0))
              \<in> {Inr None, Inr (Some a), Inr (Some b)})"
  by (auto simp: simplify_tuple_extract_of_call [OF call callee] isOverflowPrimitive_def
      simplifyOverflowBuiltin_add simplifyOverflowBuiltin_sub simplifyOverflowBuiltin_mul
      dest: m_Zero_isIntegerLiteral m_One_isIntegerLiteral)

theorem C7_no_identity_pattern_no_fold_witness:
  "simplifyInstruction (arithGraph sadd_with_overflow (OtherBuiltin 0) 2 3)
     (SILInstruction 0 64 (TupleExtractInst 7 0)) = Inr None
   \<and> simplifyInstruction (arithGraph ssub_with_overflow (OtherBuiltin 0) 0 3)
     (SILInstruction 0 64 (TupleExtractInst 7 0)) = Inr None
   \<and> simplifyInstruction (arithGraph not_intrinsic UMulOver 2 3)
     (SILInstruction 0 64 (TupleExtractInst 8 0)) = Inr None"
  using
    C7_no_identity_pattern_no_fold
      [of "arithGraph sadd_with_overflow (OtherBuiltin 0) 2 3" 7 0 71 4 1 2 "[]" 0 70
          sadd_with_overflow "OtherBuiltin 0" 0 64]
    C7_no_identity_pattern_no_fold
      [of "arithGraph ssub_with_overflow (OtherBuiltin 0) 0 3" 7 0 71 4 1 2 "[]" 0 70
          ssub_with_overflow "OtherBuiltin 0" 0 64]
    C7_no_identity_pattern_no_fold
      [of "arithGraph not_intrinsic UMulOver 2 3" 8 0 71 4 3 9 "[]" 0 70
          not_intrinsic UMulOver 0 64]
  by (simp add: arithGraph_def m_Zero_def m_One_def isIntegerLiteral_def isAddWithOverflow_def
      isSubWithOverflow_def isMulWithOverflow_def isOverflowPrimitive_def)

subsection \<open>C8: totality of the dispatch\<close>

text \<open>
  C8 as it is stated says that no input causes a fault. The rule of
  \<open>unchecked_enum_data\<close> asserts that the \<open>enum\<close> it reads has a payload: on
  \<open>unchecked_enum_data (enum #101), #101\<close> the assertion fails.
\<close>

theorem C8_unchecked_enum_data_asserts:
  "simplifyInstruction enumGraph (SILInstruction 0 5 (UncheckedEnumDataInst 3 101))
     = Inl AssertionFailure"
  by (simp add: enumGraph_def simplifyInstruction_def visit_def visitUncheckedEnumDataInst_def)

text \<open>
  C8, amended: every instruction whose tag has no rule simplifies to nothing, and the
  simplifier returns a value or nothing, without a fault, exactly on the instructions
  that meet the preconditions of the rules (\<open>meetsPreconditions\<close>).
\<close>

theorem C8_total_on_well_formed_input:
  "(\<not> hasRule (getKind I) \<longrightarrow> simplifyInstruction F I = Inr None)
   \<and> (meetsPreconditions F I \<longleftrightarrow> (\<exists>r. simplifyInstruction F I = Inr r))"
proof -
  obtain B T K where I: "I = SILInstruction B T K" by (cases I)
  have default: "\<not> hasRule K \<Longrightarrow> simplifyInstruction F I = Inr None"
    unfolding I
    by (cases K) (simp_all add: simplifyInstruction_def visit_def visitSILInstruction_def)
  have "isFault (simplifyInstruction F I) \<longleftrightarrow> \<not> meetsPreconditions F I"
  proof (cases K)
    case (TupleExtractInst v n)
    then show ?thesis
      unfolding I using visitTupleExtractInst_fault [of F "SILInstruction B T K" v n B T]
      by (simp add: simplifyInstruction_def visit_def)
  next
    case (StructInst ops)
    then show ?thesis
      unfolding I
      by (simp add: simplifyInstruction_def visit_def meetsPreconditions_def visitStructInst_def
          split: ValueBase.splits SILInstruction.splits ValueKind.splits)
  next
    case (TupleInst ops)
    then show ?thesis
      unfolding I
      by (simp add: simplifyInstruction_def visit_def meetsPreconditions_def visitTupleInst_def
          split: ValueBase.splits SILInstruction.splits ValueKind.splits)
  next
    case (StructExtractInst v n)
    then show ?thesis
      unfolding I
      by (simp add: simplifyInstruction_def visit_def meetsPreconditions_def
          visitStructExtractInst_def
          split: ValueBase.splits SILInstruction.splits ValueKind.splits)
  next
    case (EnumInst e payload)
    then show ?thesis
      unfolding I
      by (simp add: simplifyInstruction_def visit_def meetsPreconditions_def visitEnumInst_def
          split: ValueBase.splits SILInstruction.splits ValueKind.splits option.splits)
  next
    case (UncheckedEnumDataInst v e)
    then show ?thesis
      unfolding I
      by (simp add: simplifyInstruction_def visit_def meetsPreconditions_def
          visitUncheckedEnumDataInst_def
          split: ValueBase.splits SILInstruction.splits ValueKind.splits option.splits)
  next
    case (AddressToPointerInst v)
    then show ?thesis
      unfolding I
      by (simp add: simplifyInstruction_def visit_def meetsPreconditions_def
          visitAddressToPointerInst_def
          split: ValueBase.splits SILInstruction.splits ValueKind.splits)
  next
    case (PointerToAddressInst v)
    then show ?thesis
      unfolding I
      by (simp add: simplifyInstruction_def visit_def meetsPreconditions_def
          visitPointerToAddressInst_def
          split: ValueBase.splits SILInstruction.splits ValueKind.splits)
  next
    case (RefToRawPointerInst v)
    then show ?thesis
      unfolding I
      by (simp add: simplifyInstruction_def visit_def meetsPreconditions_def
          visitRefToRawPointerInst_def
          split: ValueBase.splits SILInstruction.splits ValueKind.splits)
  next
    case (UnconditionalCheckedCastInst k v)
    then show ?thesis
      unfolding I
      by (simp add: simplifyInstruction_def visit_def meetsPreconditions_def
          visitUnconditionalCheckedCastInst_def
          split: ValueBase.splits SILInstruction.splits ValueKind.splits)
  next
    case (UncheckedRefCastInst v)
    then show ?thesis
      unfolding I
      by (simp add: simplifyInstruction_def visit_def meetsPreconditions_def
          visitUncheckedRefCastInst_def split: option.splits)
  next
    case (UncheckedAddrCastInst v)
    then show ?thesis
      unfolding I
      by (simp add: simplifyInstruction_def visit_def meetsPreconditions_def
          visitUncheckedAddrCastInst_def split: option.splits)
  next
    case (UpcastInst v)
    then show ?thesis
      unfolding I
      by (simp add: simplifyInstruction_def visit_def meetsPreconditions_def
          visitUpcastInst_def
          split: ValueBase.splits SILInstruction.splits ValueKind.splits)
  next
    case (ApplyInst callee args)
    then show ?thesis
      unfolding I
      by (simp add: simplifyInstruction_def visit_def meetsPreconditions_def
          visitApplyInst_def
          split: ValueBase.splits SILInstruction.splits ValueKind.splits list.splits)
  qed (simp_all add: I simplifyInstruction_def visit_def meetsPreconditions_def
         visitSILInstruction_def)
  then have "meetsPreconditions F I \<longleftrightarrow> (\<exists>r. simplifyInstruction F I = Inr r)"
    unfolding isFault_iff by blast
  with default I show ?thesis by simp
qed

theorem C8_total_on_well_formed_input_witness:
  "simplifyInstruction enumGraph (SILInstruction 0 0 (OtherInst 7 [1])) = Inr None
   \<and> (\<exists>r. simplifyInstruction enumGraph (SILInstruction 0 5 (UncheckedEnumDataInst 2 100))
            = Inr r)
   \<and> \<not> meetsPreconditions enumGraph (SILInstruction 0 5 (UncheckedEnumDataInst 3 101))"
  using
    C8_total_on_well_formed_input [of "SILInstruction 0 0 (OtherInst 7 [1])" enumGraph]
    C8_total_on_well_formed_input [of "SILInstruction 0 5 (UncheckedEnumDataInst 2 100)" enumGraph]
  by (simp add: enumGraph_def meetsPreconditions_def)

subsection \<open>C9: where a replacement comes from\<close>

text \<open>
  C9 as it is stated says that a returned value is an operand of the instruction or an
  operand of one of its operands, and that it is never the instruction's own result.
  The rule of the \<open>enum\<close> instruction returns the operand of the \<open>switch_enum\<close> in the
  predecessor block. In \<open>cfgGraph\<close>, \<open>%13 = enum #100\<close> has no operand at all and
  simplifies to \<open>%10\<close>. In \<open>loopGraph\<close>, where block 5 is its own single predecessor and
  its switch reads \<open>%20 = enum #100\<close>, the instruction \<open>%20\<close> simplifies to \<open>%20\<close>, its
  own result.
\<close>

theorem C9_enum_fold_returns_no_operand:
  "simplifyInstruction cfgGraph (SILInstruction 2 77 (EnumInst 100 None)) = Inr (Some 10)
   \<and> 10 \<notin> set (getAllOperands (getKind (SILInstruction 2 77 (EnumInst 100 None))))
   \<and> 10 \<notin> set (operandsOfOperands cfgGraph (SILInstruction 2 77 (EnumInst 100 None)))
   \<and> defs loopGraph 20 = Inst (SILInstruction 5 77 (EnumInst 100 None))
   \<and> simplifyInstruction loopGraph (SILInstruction 5 77 (EnumInst 100 None)) = Inr (Some 20)"
  by (simp add: cfgGraph_def loopGraph_def simplifyInstruction_def visit_def visitEnumInst_def
      getSinglePredecessor_def getCaseDestination_def valueType_def operandsOfOperands_def)

text \<open>
  C9, amended: a returned value is an operand of the instruction, an operand of the
  instruction that defines one of its operands, or, for an \<open>enum\<close> without payload, the
  operand of the \<open>switch_enum\<close> of the single predecessor block. It is distinct from
  the instruction's own result in every graph where definitions precede uses: where,
  in some linear order \<open>pos\<close> of the values, the instruction and the instructions that
  define its operands come after their operands, and the terminator of the single
  predecessor block comes after its operands and before the instruction.
\<close>

theorem C9_result_is_an_existing_value:
  assumes "simplifyInstruction F I = Inr (Some V)"
  shows "V \<in> set (replacementSources F I)
       \<and> (\<forall>i. defs F i = Inst I \<and> definitionsPrecedeUses pos F i \<longrightarrow> V \<noteq> i)"
proof -
  from assms have src: "V \<in> set (replacementSources F I)"
    by (rule simplifyInstruction_source)
  have "V \<noteq> i" if "defs F i = Inst I" and "definitionsPrecedeUses pos F i" for i
    using replacementSources_earlier [OF src that] by blast
  with src show ?thesis by blast
qed

theorem C9_result_is_an_existing_value_witness:
  "simplifyInstruction cfgGraph (SILInstruction 2 77 (EnumInst 100 None)) = Inr (Some 10)
   \<and> 10 \<in> set (replacementSources cfgGraph (SILInstruction 2 77 (EnumInst 100 None)))
   \<and> defs cfgGraph 13 = Inst (SILInstruction 2 77 (EnumInst 100 None))
   \<and> definitionsPrecedeUses (\<lambda>v. v) cfgGraph 13
   \<and> simplifyInstruction enumGraph (SILInstruction 0 5 (UncheckedEnumDataInst 2 100))
        = Inr (Some 1)
   \<and> defs enumGraph 4 = Inst (SILInstruction 0 5 (UncheckedEnumDataInst 2 100))
   \<and> definitionsPrecedeUses (\<lambda>v. v) enumGraph 4
   \<and> \<not> definitionsPrecedeUses (\<lambda>v. v) loopGraph 20"
  using
    C9_result_is_an_existing_value
      [of cfgGraph "SILInstruction 2 77 (EnumInst 100 None)" 10 "\<lambda>v. v"]
    C9_result_is_an_existing_value
      [of enumGraph "SILInstruction 0 5 (UncheckedEnumDataInst 2 100)" 1 "\<lambda>v. v"]
  by (simp add: cfgGraph_def enumGraph_def loopGraph_def simplifyInstruction_def visit_def
      visitEnumInst_def visitUncheckedEnumDataInst_def getSinglePredecessor_def
      getCaseDestination_def valueType_def replacementSources_def operandsOfOperands_def
      predecessorScrutinee_def definitionsPrecedeUses_def definedBeforeUse_def
      predecessorTerminator_def operandsOf_def)

subsection \<open>C10: the folds fire through field 0 only\<close>

text \<open>
  C10: for a call of a designated primitive, the simplifier returns nothing on the call
  itself and on the extract of any field other than 0 of its result; on the extract of
  field 0 it returns what \<^verbatim>\<open>simplifyOverflowBuiltin\<close> returns.
\<close>

theorem C10_folds_only_through_field_zero:
  assumes callee: "defs F callee = Inst (SILInstruction B' T' (BuiltinFunctionRefInst iid bid))"
      and prim: "isOverflowPrimitive iid bid"
      and call: "defs F v = Inst (SILInstruction B T (ApplyInst callee args))"
  shows "simplifyInstruction F (SILInstruction B T (ApplyInst callee args)) = Inr None
       \<and> (\<forall>n. n \<noteq> 0 \<longrightarrow>
            simplifyInstruction F (SILInstruction B'' T'' (TupleExtractInst v n)) = Inr None)
       \<and> simplifyInstruction F (SILInstruction B'' T'' (TupleExtractInst v 0)) =
            simplifyOverflowBuiltin F args iid bid"
  using call
  by (simp add: simplify_call_of_overflow_primitive [OF callee prim]
      simplify_tuple_extract_of_call [OF call callee])
     (simp add: simplifyInstruction_def visit_def visitTupleExtractInst_def)

theorem C10_folds_only_through_field_zero_witness:
  "simplifyInstruction (arithGraph sadd_with_overflow (OtherBuiltin 0) 0 1)
     (SILInstruction 0 71 (ApplyInst 4 [1, 3])) = Inr None
   \<and> simplifyInstruction (arithGraph sadd_with_overflow (OtherBuiltin 0) 0 1)
     (SILInstruction 0 1 (TupleExtractInst 5 1)) = Inr None
   \<and> simplifyInstruction (arithGraph sadd_with_overflow (OtherBuiltin 0) 0 1)
     (SILInstruction 0 64 (TupleExtractInst 5 0)) = Inr (Some 3)"
  using
    C10_folds_only_through_field_zero
      [of "arithGraph sadd_with_overflow (OtherBuiltin 0) 0 1" 4 0 70
          sadd_with_overflow "OtherBuiltin 0" 5 0 71 "[1, 3]" 0 1]
    C10_folds_only_through_field_zero
      [of "arithGraph sadd_with_overflow (OtherBuiltin 0) 0 1" 4 0 70
          sadd_with_overflow "OtherBuiltin 0" 5 0 71 "[1, 3]" 0 64]
  by (simp add: arithGraph_def isOverflowPrimitive_def isAddWithOverflow_def
      simplifyOverflowBuiltin_def simplifyBinaryWithOverflow_def m_Zero_def isIntegerLiteral_def)

end
